theory Spec2Isabelle
  imports Complex_Main
begin

section \<open>Data model (src/types/ConfigTypes.ts)\<close>

text \<open>
  Interfaces are records; an optional property \<open>f?: T\<close> is a field of type
  \<open>T option\<close>, \<open>None\<close> standing for an absent (undefined) property. Field names
  that several interfaces share (\<open>id\<close>, \<open>name\<close>, \<open>metadata\<close>, ...) carry a
  prefix naming their interface. A value of type \<open>unknown\<close> is a \<open>json\<close> value;
  an object used as a dictionary (\<open>Record<string, T>\<close>) is an association list
  in insertion order. JavaScript lists integer-like keys first; no statement
  below depends on the order of the properties of an object.
\<close>

datatype json =
    JUndefined
  | JNull
  | JBool bool
  | JNum rat
  | JStr string
  | JArr "json list"
  | JObj "(string \<times> json) list"

datatype TaskType = Manual | Automated | Review | Approval

record ISDLCTask =
  task_id :: string
  task_name :: string
  task_description :: "string option"
  task_type :: TaskType
  task_required :: bool
  task_dependencies :: "string list option"
  estimatedDuration :: "string option"
  assignee :: "string option"
  tools :: "string list option"
  outputs :: "string list option"

record ISDLCPhase =
  phase_id :: string
  phase_name :: string
  phase_description :: "string option"
  objectives :: "string list"
  deliverables :: "string list"
  entryConditions :: "string list"
  exitConditions :: "string list"
  tasks :: "ISDLCTask list"
  nextPhases :: "string list"
  phase_requiresApproval :: "bool option"
  phase_metadata :: "(string \<times> json) list option"

record ISDLCTransition =
  tr_from :: string
  tr_to :: string
  conditions :: "string list"
  tr_requiresApproval :: "bool option"
  approvers :: "string list option"
  tr_metadata :: "(string \<times> json) list option"

record ITimeoutSettings =
  phaseTimeout :: "string option"
  taskTimeout :: "string option"
  approvalTimeout :: "string option"
  warningThreshold :: "rat option"

record IIntegrationSettings =
  githubEnabled :: "bool option"
  slackEnabled :: "bool option"
  emailEnabled :: "bool option"
  webhookUrl :: "string option"
  customIntegrations :: "(string \<times> json) list option"

record IWorkflowSettings =
  requireApprovalForTransitions :: "bool option"
  defaultApprovers :: "string list option"
  notificationChannels :: "string list option"
  timeoutSettings :: "ITimeoutSettings option"
  integrations :: "IIntegrationSettings option"

record ISDLCWorkflow =
  wf_id :: string
  wf_name :: string
  wf_description :: "string option"
  wf_version :: string
  initialPhase :: string
  phases :: "ISDLCPhase list"
  transitions :: "ISDLCTransition list"
  globalSettings :: "IWorkflowSettings option"
  wf_metadata :: "(string \<times> json) list option"

record IEnvironmentConfig =
  env_name :: string
  env_description :: "string option"
  overrides :: "IWorkflowSettings option"
  featureFlags :: "(string \<times> bool) list option"
  variables :: "(string \<times> string) list option"

record ISDLCConfig =
  version :: string
  workflows :: "ISDLCWorkflow list"
  environments :: "IEnvironmentConfig list option"
  defaultWorkflow :: "string option"
  defaultEnvironment :: "string option"
  metadata :: "(string \<times> json) list option"

datatype ErrorType = Missing | Invalid | Conflict | Reference

datatype WarningType = Deprecated | Unused | Performance | BestPractice

record IValidationError =
  err_path :: string
  err_message :: string
  err_type :: ErrorType

record IValidationWarning =
  warn_path :: string
  warn_message :: string
  warn_type :: WarningType

record IConfigValidationResult =
  valid :: bool
  errors :: "IValidationError list"
  warnings :: "IValidationWarning list"

section \<open>JavaScript primitives the code relies on\<close>

text \<open>Template literals print an array index in decimal.\<close>

definition digit_char :: "nat \<Rightarrow> char" where
  "digit_char d = ''0123456789'' ! d"

fun show_nat :: "nat \<Rightarrow> string" where
  "show_nat n = (if n < 10 then [digit_char n] else show_nat (n div 10) @ [digit_char (n mod 10)])"

declare show_nat.simps [simp del]

text \<open>\<open>Array.prototype.join\<close>.\<close>

fun join :: "string \<Rightarrow> string list \<Rightarrow> string" where
  "join sep [] = []"
| "join sep [x] = x"
| "join sep (x # y # ys) = x @ sep @ join sep (y # ys)"

text \<open>\<open>String.prototype.includes\<close>.\<close>

fun starts_with :: "string \<Rightarrow> string \<Rightarrow> bool" where
  "starts_with s [] = True"
| "starts_with [] (c # cs) = False"
| "starts_with (d # ds) (c # cs) = (d = c \<and> starts_with ds cs)"

fun includes_str :: "string \<Rightarrow> string \<Rightarrow> bool" where
  "includes_str [] sub = (sub = [])"
| "includes_str (c # cs) sub = (starts_with (c # cs) sub \<or> includes_str cs sub)"

text \<open>
  \<open>a || b\<close> on strings (the empty string is the only falsy string), on optional
  strings, and on optional arrays and objects (always truthy when present);
  \<open>a ?? b\<close> on any optional value.
\<close>

definition or_string :: "string \<Rightarrow> string \<Rightarrow> string" where
  "or_string a b = (if a \<noteq> [] then a else b)"

definition or_string_opt :: "string option \<Rightarrow> string option \<Rightarrow> string option" where
  "or_string_opt a b = (case a of Some s \<Rightarrow> if s \<noteq> [] then Some s else b | None \<Rightarrow> b)"

definition or_object :: "'a option \<Rightarrow> 'a option \<Rightarrow> 'a option" where
  "or_object a b = (case a of Some x \<Rightarrow> Some x | None \<Rightarrow> b)"

definition nullish :: "'a option \<Rightarrow> 'a option \<Rightarrow> 'a option" where
  "nullish a b = (case a of Some x \<Rightarrow> Some x | None \<Rightarrow> b)"

text \<open>
  A \<open>Map\<close> keeps its keys in insertion order: \<open>set\<close> on a key already there
  replaces the value in place, on a new key it appends the entry.
\<close>

fun map_set :: "'k \<Rightarrow> 'v \<Rightarrow> ('k \<times> 'v) list \<Rightarrow> ('k \<times> 'v) list" where
  "map_set k v [] = [(k, v)]"
| "map_set k v (e # m) = (if fst e = k then (k, v) # m else e # map_set k v m)"

definition map_get :: "('k \<times> 'v) list \<Rightarrow> 'k \<Rightarrow> 'v option" where
  "map_get m k = map_of m k"

definition map_values :: "('k \<times> 'v) list \<Rightarrow> 'v list" where
  "map_values m = map snd m"

text \<open>
  Object spread over dictionaries: \<open>{...a, ...b}\<close> copies the own properties of
  \<open>a\<close>, then those of \<open>b\<close>, into a fresh object; spreading \<open>undefined\<close> copies
  nothing.
\<close>

definition object_assign :: "(string \<times> 'v) list \<Rightarrow> (string \<times> 'v) list \<Rightarrow> (string \<times> 'v) list" where
  "object_assign target src = foldl (\<lambda>acc kv. map_set (fst kv) (snd kv) acc) target src"

definition own_props :: "(string \<times> 'v) list option \<Rightarrow> (string \<times> 'v) list" where
  "own_props obj = (case obj of None \<Rightarrow> [] | Some kvs \<Rightarrow> kvs)"

definition spread2 :: "(string \<times> 'v) list option \<Rightarrow> (string \<times> 'v) list option \<Rightarrow> (string \<times> 'v) list" where
  "spread2 a b = object_assign (object_assign [] (own_props a)) (own_props b)"

section \<open>ConfigLoader (src/implementations/ConfigLoader.ts)\<close>

text \<open>
  The loader holds \<open>validateFunction\<close>, the schema validator its constructor
  compiles from \<open>sdlcConfigSchema\<close>. A call yields the boolean it returns and the
  \<open>errors\<close> property it leaves behind (\<open>null\<close> after a successful run). The
  functions below take the validator as a parameter, as the class takes it as
  a field. Logging is an effect on a collaborator and is left out.
\<close>

record ErrorObject =
  instancePath :: string
  ajv_message :: "string option"

record AjvOutcome =
  ajv_valid :: bool
  ajv_errors :: "ErrorObject list option"

definition apostrophe :: string where
  "apostrophe = [CHR 0x27]"

definition schema_error :: "ErrorObject \<Rightarrow> IValidationError" where
  "schema_error error =
     \<lparr>err_path = or_string (instancePath error) ''/'',
      err_message = (case ajv_message error of
                       None \<Rightarrow> ''Unknown validation error''
                     | Some m \<Rightarrow> or_string m ''Unknown validation error''),
      err_type = Invalid\<rparr>"

definition schema_errors :: "AjvOutcome \<Rightarrow> IValidationError list" where
  "schema_errors outcome =
     (if \<not> ajv_valid outcome
      then (case ajv_errors outcome of None \<Rightarrow> [] | Some es \<Rightarrow> map schema_error es)
      else [])"

definition check_nextPhases :: "string set \<Rightarrow> nat \<Rightarrow> nat \<Rightarrow> ISDLCPhase \<Rightarrow> IValidationError list" where
  "check_nextPhases phaseIds wIndex pIndex phase =
     concat (map (\<lambda>(nIndex, nextPhaseId).
        if nextPhaseId \<notin> phaseIds
        then [\<lparr>err_path = ''/workflows/'' @ show_nat wIndex @ ''/phases/'' @ show_nat pIndex
                          @ ''/nextPhases/'' @ show_nat nIndex,
               err_message = ''Next phase '' @ apostrophe @ nextPhaseId @ apostrophe
                          @ '' not found in workflow phases'',
               err_type = Reference\<rparr>]
        else [])
      (enumerate 0 (nextPhases phase)))"

definition check_task_dependencies :: "nat \<Rightarrow> nat \<Rightarrow> ISDLCPhase \<Rightarrow> IValidationError list" where
  "check_task_dependencies wIndex pIndex phase =
     (let taskIds = set (map task_id (tasks phase)) in
      concat (map (\<lambda>(tIndex, task).
        concat (map (\<lambda>(dIndex, depId).
          if depId \<notin> taskIds
          then [\<lparr>err_path = ''/workflows/'' @ show_nat wIndex @ ''/phases/'' @ show_nat pIndex
                            @ ''/tasks/'' @ show_nat tIndex @ ''/dependencies/'' @ show_nat dIndex,
                 err_message = ''Task dependency '' @ apostrophe @ depId @ apostrophe
                            @ '' not found in phase tasks'',
                 err_type = Reference\<rparr>]
          else [])
        (enumerate 0 (case task_dependencies task of None \<Rightarrow> [] | Some ds \<Rightarrow> ds))))
      (enumerate 0 (tasks phase))))"

definition check_transition :: "string set \<Rightarrow> nat \<Rightarrow> nat \<Rightarrow> ISDLCTransition \<Rightarrow> IValidationError list" where
  "check_transition phaseIds wIndex tIndex transition =
     (if tr_from transition \<notin> phaseIds
      then [\<lparr>err_path = ''/workflows/'' @ show_nat wIndex @ ''/transitions/'' @ show_nat tIndex @ ''/from'',
             err_message = ''Transition source phase '' @ apostrophe @ tr_from transition @ apostrophe
                        @ '' not found'',
             err_type = Reference\<rparr>]
      else [])
     @ (if tr_to transition \<notin> phaseIds
        then [\<lparr>err_path = ''/workflows/'' @ show_nat wIndex @ ''/transitions/'' @ show_nat tIndex @ ''/to'',
               err_message = ''Transition target phase '' @ apostrophe @ tr_to transition @ apostrophe
                          @ '' not found'',
               err_type = Reference\<rparr>]
        else [])"

text \<open>The first \<open>forEach\<close> over the workflows: the reference checks of one workflow.\<close>

definition workflow_errors :: "nat \<Rightarrow> ISDLCWorkflow \<Rightarrow> IValidationError list" where
  "workflow_errors wIndex workflow =
     (let phaseIds = set (map phase_id (phases workflow)) in
      (if initialPhase workflow \<noteq> [] \<and> initialPhase workflow \<notin> phaseIds
       then [\<lparr>err_path = ''/workflows/'' @ show_nat wIndex @ ''/initialPhase'',
              err_message = ''Initial phase '' @ apostrophe @ initialPhase workflow @ apostrophe
                         @ '' not found in workflow phases'',
              err_type = Reference\<rparr>]
       else [])
      @ concat (map (\<lambda>(pIndex, phase).
          check_nextPhases phaseIds wIndex pIndex phase @ check_task_dependencies wIndex pIndex phase)
        (enumerate 0 (phases workflow)))
      @ concat (map (\<lambda>(tIndex, transition). check_transition phaseIds wIndex tIndex transition)
        (enumerate 0 (transitions workflow))))"

text \<open>
  The second \<open>forEach\<close>: the ids added to \<open>referencedPhases\<close>, in the order the
  code adds them, and the warning for every phase whose id is not among them.
\<close>

definition referencedPhases :: "ISDLCWorkflow \<Rightarrow> string list" where
  "referencedPhases workflow =
     (if initialPhase workflow \<noteq> [] then [initialPhase workflow] else [])
     @ concat (map (\<lambda>t. [tr_from t, tr_to t]) (transitions workflow))
     @ concat (map nextPhases (phases workflow))"

definition unused_warning :: "nat \<Rightarrow> nat \<Rightarrow> ISDLCPhase \<Rightarrow> IValidationWarning" where
  "unused_warning wIndex pIndex phase =
     \<lparr>warn_path = ''/workflows/'' @ show_nat wIndex @ ''/phases/'' @ show_nat pIndex,
      warn_message = ''Phase '' @ apostrophe @ phase_id phase @ apostrophe
                   @ '' is not referenced by any transition or phase'',
      warn_type = Unused\<rparr>"

definition unused_warnings :: "nat \<Rightarrow> ISDLCWorkflow \<Rightarrow> IValidationWarning list" where
  "unused_warnings wIndex workflow =
     concat (map (\<lambda>(pIndex, phase).
        if phase_id phase \<notin> set (referencedPhases workflow)
        then [unused_warning wIndex pIndex phase]
        else [])
      (enumerate 0 (phases workflow)))"

definition deprecated_warnings :: "ISDLCConfig \<Rightarrow> IValidationWarning list" where
  "deprecated_warnings config =
     (if (case metadata config of None \<Rightarrow> False | Some md \<Rightarrow> ''legacyMode'' \<in> set (map fst md))
      then [\<lparr>warn_path = ''/metadata/legacyMode'',
             warn_message = ''The legacyMode flag is deprecated and will be removed in future versions'',
             warn_type = Deprecated\<rparr>]
      else [])"

text \<open>
  \<open>validate\<close>. In a value of type \<open>ISDLCConfig\<close> the arrays \<open>workflows\<close> and
  \<open>phases\<close> are present, so the guards \<open>if (config.workflows)\<close> and
  \<open>if (!workflow.phases) return\<close> always let the checks run.
\<close>

definition validate :: "(ISDLCConfig \<Rightarrow> AjvOutcome) \<Rightarrow> ISDLCConfig \<Rightarrow> IConfigValidationResult" where
  "validate validateFunction config =
     (let errs = schema_errors (validateFunction config)
                 @ concat (map (\<lambda>(wIndex, workflow). workflow_errors wIndex workflow)
                     (enumerate 0 (workflows config)));
          warns = concat (map (\<lambda>(wIndex, workflow). unused_warnings wIndex workflow)
                     (enumerate 0 (workflows config)))
                  @ deprecated_warnings config
      in \<lparr>valid = (errs = []), errors = errs, warnings = warns\<rparr>)"

text \<open>
  \<open>loadFromString\<close>. The YAML parser is a collaborator: it throws a
  \<open>YAMLException\<close> or returns the document, here a value of type \<open>ISDLCConfig\<close>.
  A thrown exception is the \<open>Inl\<close> branch of the result.
\<close>

datatype exn = YAMLException string | Error string

definition error_line :: "IValidationError \<Rightarrow> string" where
  "error_line e = err_path e @ '': '' @ err_message e"

definition loadFromString ::
  "(string \<Rightarrow> exn + ISDLCConfig) \<Rightarrow> (ISDLCConfig \<Rightarrow> AjvOutcome) \<Rightarrow> string \<Rightarrow> exn + ISDLCConfig" where
  "loadFromString yaml_load validateFunction content =
     (case yaml_load content of
        Inl (YAMLException m) \<Rightarrow> Inl (Error (''Invalid YAML syntax: '' @ m))
      | Inl (Error m) \<Rightarrow> Inl (Error m)
      | Inr config \<Rightarrow>
          (let validationResult = validate validateFunction config in
           if \<not> valid validationResult
           then Inl (Error (''Invalid configuration: ''
                  @ or_string (join '', '' (map error_line (errors validationResult)))
                      ''Unknown validation error''))
           else Inr config))"

subsection \<open>The compiled schema on typed values\<close>

text \<open>
  What the validator compiled from \<open>sdlcConfigSchema\<close> (all errors collected)
  reports on a value of type \<open>ISDLCConfig\<close>. The types already give every
  \<open>type\<close>, \<open>required\<close> and \<open>enum\<close> constraint of the schema, and the \<open>uri\<close>
  format is registered as always valid; what is left is the pattern of
  \<open>version\<close>, \<open>minItems: 1\<close> on \<open>workflows\<close> and on each \<open>phases\<close>, and the
  range of each \<open>warningThreshold\<close>.
\<close>

definition is_digit :: "char \<Rightarrow> bool" where
  "is_digit c = (c \<in> set ''0123456789'')"

text \<open>The pattern \<open>^\d+\.\d+\.\d+$\<close>.\<close>

definition matches_version_pattern :: "string \<Rightarrow> bool" where
  "matches_version_pattern s =
     (let a = takeWhile is_digit s; r1 = dropWhile is_digit s in
      a \<noteq> [] \<and>
      (case r1 of
         [] \<Rightarrow> False
       | c1 # r2 \<Rightarrow> c1 = CHR ''.'' \<and>
           (let b = takeWhile is_digit r2; r3 = dropWhile is_digit r2 in
            b \<noteq> [] \<and>
            (case r3 of
               [] \<Rightarrow> False
             | c2 # r4 \<Rightarrow> c2 = CHR ''.'' \<and> r4 \<noteq> [] \<and> list_all is_digit r4))))"

definition threshold_errors :: "string \<Rightarrow> IWorkflowSettings option \<Rightarrow> ErrorObject list" where
  "threshold_errors path settings =
     (case settings of
        None \<Rightarrow> []
      | Some s \<Rightarrow>
          (case timeoutSettings s of
             None \<Rightarrow> []
           | Some ts \<Rightarrow>
               (case warningThreshold ts of
                  None \<Rightarrow> []
                | Some x \<Rightarrow>
                    (if 100 < x
                     then [\<lparr>instancePath = path @ ''/timeoutSettings/warningThreshold'',
                            ajv_message = Some ''must be <= 100''\<rparr>]
                     else [])
                    @ (if x < 0
                       then [\<lparr>instancePath = path @ ''/timeoutSettings/warningThreshold'',
                              ajv_message = Some ''must be >= 0''\<rparr>]
                       else []))))"

definition workflow_schema_errors :: "nat \<Rightarrow> ISDLCWorkflow \<Rightarrow> ErrorObject list" where
  "workflow_schema_errors i w =
     (if phases w = []
      then [\<lparr>instancePath = ''/workflows/'' @ show_nat i @ ''/phases'',
             ajv_message = Some ''must NOT have fewer than 1 items''\<rparr>]
      else [])
     @ threshold_errors (''/workflows/'' @ show_nat i @ ''/globalSettings'') (globalSettings w)"

definition sdlcConfigSchema_errors :: "ISDLCConfig \<Rightarrow> ErrorObject list" where
  "sdlcConfigSchema_errors config =
     (if matches_version_pattern (version config) then []
      else [\<lparr>instancePath = ''/version'',
             ajv_message = Some (''must match pattern '' @ [CHR 0x22] @ ''^'' @ [CHR 0x5C] @ ''d+''
                @ [CHR 0x5C] @ ''.'' @ [CHR 0x5C] @ ''d+'' @ [CHR 0x5C] @ ''.'' @ [CHR 0x5C] @ ''d+$''
                @ [CHR 0x22])\<rparr>])
     @ (if workflows config = []
        then [\<lparr>instancePath = ''/workflows'', ajv_message = Some ''must NOT have fewer than 1 items''\<rparr>]
        else [])
     @ concat (map (\<lambda>(i, w). workflow_schema_errors i w) (enumerate 0 (workflows config)))
     @ concat (map (\<lambda>(j, env). threshold_errors (''/environments/'' @ show_nat j @ ''/overrides'') (overrides env))
         (enumerate 0 (case environments config of None \<Rightarrow> [] | Some envs \<Rightarrow> envs)))"

definition sdlcConfigSchema_validate :: "ISDLCConfig \<Rightarrow> AjvOutcome" where
  "sdlcConfigSchema_validate config =
     (let es = sdlcConfigSchema_errors config in
      if es = [] then \<lparr>ajv_valid = True, ajv_errors = None\<rparr>
      else \<lparr>ajv_valid = False, ajv_errors = Some es\<rparr>)"

section \<open>ConfigMerger (src/implementations/ConfigLoader.ts, class ConfigMerger)\<close>

text \<open>
  Object spread over a typed object: a property of the result is the one of the
  later object when that object has it, of the earlier object otherwise. An
  object that is \<open>undefined\<close> has no property.
\<close>

definition spread_field :: "'a option \<Rightarrow> 'a option \<Rightarrow> 'a option" where
  "spread_field earlier later = (case later of Some x \<Rightarrow> Some x | None \<Rightarrow> earlier)"

definition own_field :: "('r \<Rightarrow> 'a option) \<Rightarrow> 'r option \<Rightarrow> 'a option" where
  "own_field f obj = (case obj of None \<Rightarrow> None | Some r \<Rightarrow> f r)"

definition spread_timeoutSettings :: "ITimeoutSettings option \<Rightarrow> ITimeoutSettings option \<Rightarrow> ITimeoutSettings" where
  "spread_timeoutSettings a b =
     \<lparr>phaseTimeout = spread_field (own_field phaseTimeout a) (own_field phaseTimeout b),
      taskTimeout = spread_field (own_field taskTimeout a) (own_field taskTimeout b),
      approvalTimeout = spread_field (own_field approvalTimeout a) (own_field approvalTimeout b),
      warningThreshold = spread_field (own_field warningThreshold a) (own_field warningThreshold b)\<rparr>"

definition spread_integrations :: "IIntegrationSettings option \<Rightarrow> IIntegrationSettings option \<Rightarrow> IIntegrationSettings" where
  "spread_integrations a b =
     \<lparr>githubEnabled = spread_field (own_field githubEnabled a) (own_field githubEnabled b),
      slackEnabled = spread_field (own_field slackEnabled a) (own_field slackEnabled b),
      emailEnabled = spread_field (own_field emailEnabled a) (own_field emailEnabled b),
      webhookUrl = spread_field (own_field webhookUrl a) (own_field webhookUrl b),
      customIntegrations = spread_field (own_field customIntegrations a) (own_field customIntegrations b)\<rparr>"

fun mergeWorkflowSettings :: "IWorkflowSettings option \<Rightarrow> IWorkflowSettings option \<Rightarrow> IWorkflowSettings option" where
  "mergeWorkflowSettings None None = None"
| "mergeWorkflowSettings None (Some override) = Some override"
| "mergeWorkflowSettings (Some base) None = Some base"
| "mergeWorkflowSettings (Some base) (Some override) =
     Some \<lparr>requireApprovalForTransitions =
              nullish (requireApprovalForTransitions override) (requireApprovalForTransitions base),
           defaultApprovers = or_object (defaultApprovers override) (defaultApprovers base),
           notificationChannels = or_object (notificationChannels override) (notificationChannels base),
           timeoutSettings = Some (spread_timeoutSettings (timeoutSettings base) (timeoutSettings override)),
           integrations = Some (spread_integrations (integrations base) (integrations override))\<rparr>"

fun mergeMetadata :: "(string \<times> json) list option \<Rightarrow> (string \<times> json) list option \<Rightarrow> (string \<times> json) list option" where
  "mergeMetadata None None = None"
| "mergeMetadata None (Some override) = Some override"
| "mergeMetadata (Some base) None = Some base"
| "mergeMetadata (Some base) (Some override) = Some (spread2 (Some base) (Some override))"

definition mergeWorkflow :: "ISDLCWorkflow \<Rightarrow> ISDLCWorkflow \<Rightarrow> ISDLCWorkflow" where
  "mergeWorkflow base override =
     \<lparr>wf_id = wf_id override,
      wf_name = wf_name override,
      wf_description = spread_field (wf_description base) (wf_description override),
      wf_version = wf_version override,
      initialPhase = initialPhase override,
      phases = phases override,
      transitions = transitions override,
      globalSettings = mergeWorkflowSettings (globalSettings base) (globalSettings override),
      wf_metadata = mergeMetadata (wf_metadata base) (wf_metadata override)\<rparr>"

definition mergeWorkflows :: "ISDLCWorkflow list \<Rightarrow> ISDLCWorkflow list option \<Rightarrow> ISDLCWorkflow list" where
  "mergeWorkflows baseWorkflows overrideWorkflows =
     (case overrideWorkflows of
        None \<Rightarrow> baseWorkflows
      | Some ows \<Rightarrow>
          if ows = [] then baseWorkflows
          else
            (let baseMap = foldl (\<lambda>workflowMap workflow. map_set (wf_id workflow) workflow workflowMap)
                             [] baseWorkflows;
                 workflowMap = foldl (\<lambda>workflowMap workflow.
                                 (case map_get workflowMap (wf_id workflow) of
                                    Some existing \<Rightarrow>
                                      map_set (wf_id workflow) (mergeWorkflow existing workflow) workflowMap
                                  | None \<Rightarrow> map_set (wf_id workflow) workflow workflowMap))
                               baseMap ows
             in map_values workflowMap))"

definition mergeEnvironmentEntry :: "IEnvironmentConfig \<Rightarrow> IEnvironmentConfig \<Rightarrow> IEnvironmentConfig" where
  "mergeEnvironmentEntry existing env =
     \<lparr>env_name = env_name env,
      env_description = spread_field (env_description existing) (env_description env),
      overrides = mergeWorkflowSettings (overrides existing) (overrides env),
      featureFlags = Some (spread2 (featureFlags existing) (featureFlags env)),
      variables = Some (spread2 (variables existing) (variables env))\<rparr>"

fun mergeEnvironments :: "IEnvironmentConfig list option \<Rightarrow> IEnvironmentConfig list option \<Rightarrow> IEnvironmentConfig list option" where
  "mergeEnvironments None None = None"
| "mergeEnvironments None (Some override) = Some override"
| "mergeEnvironments (Some base) None = Some base"
| "mergeEnvironments (Some base) (Some override) =
     (let baseMap = foldl (\<lambda>envMap env. map_set (env_name env) env envMap) [] base;
          envMap = foldl (\<lambda>envMap env.
                      (case map_get envMap (env_name env) of
                         Some existing \<Rightarrow> map_set (env_name env) (mergeEnvironmentEntry existing env) envMap
                       | None \<Rightarrow> map_set (env_name env) env envMap))
                    baseMap override
      in Some (map_values envMap))"

definition merge :: "ISDLCConfig \<Rightarrow> ISDLCConfig \<Rightarrow> ISDLCConfig" where
  "merge base override =
     \<lparr>version = or_string (version override) (version base),
      workflows = mergeWorkflows (workflows base) (Some (workflows override)),
      environments = mergeEnvironments (environments base) (environments override),
      defaultWorkflow = or_string_opt (defaultWorkflow override) (defaultWorkflow base),
      defaultEnvironment = or_string_opt (defaultEnvironment override) (defaultEnvironment base),
      metadata = mergeMetadata (metadata base) (metadata override)\<rparr>"

text \<open>
  \<open>JSON.parse(JSON.stringify(config))\<close>: on the values of this model the round
  trip changes \<open>unknown\<close> values only, where a property whose value is
  \<open>undefined\<close> is dropped and an \<open>undefined\<close> array element becomes \<open>null\<close>.
\<close>

fun clone_json :: "json \<Rightarrow> json" where
  "clone_json (JArr xs) = JArr (map (\<lambda>x. if x = JUndefined then JNull else clone_json x) xs)"
| "clone_json (JObj kvs) =
     JObj (map (\<lambda>kv. (fst kv, clone_json (snd kv))) (filter (\<lambda>kv. snd kv \<noteq> JUndefined) kvs))"
| "clone_json v = v"

definition clone_dict :: "(string \<times> json) list \<Rightarrow> (string \<times> json) list" where
  "clone_dict kvs = map (\<lambda>kv. (fst kv, clone_json (snd kv))) (filter (\<lambda>kv. snd kv \<noteq> JUndefined) kvs)"

definition clone_phase :: "ISDLCPhase \<Rightarrow> ISDLCPhase" where
  "clone_phase p = p\<lparr>phase_metadata := map_option clone_dict (phase_metadata p)\<rparr>"

definition clone_transition :: "ISDLCTransition \<Rightarrow> ISDLCTransition" where
  "clone_transition t = t\<lparr>tr_metadata := map_option clone_dict (tr_metadata t)\<rparr>"

definition clone_integrations :: "IIntegrationSettings \<Rightarrow> IIntegrationSettings" where
  "clone_integrations i = i\<lparr>customIntegrations := map_option clone_dict (customIntegrations i)\<rparr>"

definition clone_settings :: "IWorkflowSettings \<Rightarrow> IWorkflowSettings" where
  "clone_settings s = s\<lparr>integrations := map_option clone_integrations (integrations s)\<rparr>"

definition clone_workflow :: "ISDLCWorkflow \<Rightarrow> ISDLCWorkflow" where
  "clone_workflow w =
     w\<lparr>phases := map clone_phase (phases w),
       transitions := map clone_transition (transitions w),
       globalSettings := map_option clone_settings (globalSettings w),
       wf_metadata := map_option clone_dict (wf_metadata w)\<rparr>"

definition clone_environment :: "IEnvironmentConfig \<Rightarrow> IEnvironmentConfig" where
  "clone_environment e = e\<lparr>overrides := map_option clone_settings (overrides e)\<rparr>"

definition clone_config :: "ISDLCConfig \<Rightarrow> ISDLCConfig" where
  "clone_config c =
     c\<lparr>workflows := map clone_workflow (workflows c),
       environments := map_option (map clone_environment) (environments c),
       metadata := map_option clone_dict (metadata c)\<rparr>"

definition dict_json :: "('v \<Rightarrow> json) \<Rightarrow> (string \<times> 'v) list option \<Rightarrow> json" where
  "dict_json to_json obj = (case obj of None \<Rightarrow> JUndefined | Some kvs \<Rightarrow> JObj (map (\<lambda>kv. (fst kv, to_json (snd kv))) kvs))"

definition find_environment :: "ISDLCConfig \<Rightarrow> string \<Rightarrow> IEnvironmentConfig option" where
  "find_environment config environmentName =
     (case environments config of
        None \<Rightarrow> None
      | Some envs \<Rightarrow> find (\<lambda>env. env_name env = environmentName) envs)"

definition apply_overrides :: "IWorkflowSettings \<Rightarrow> ISDLCWorkflow \<Rightarrow> ISDLCWorkflow" where
  "apply_overrides env_overrides workflow =
     (case globalSettings workflow of
        Some gs \<Rightarrow> workflow\<lparr>globalSettings := mergeWorkflowSettings (Some gs) (Some env_overrides)\<rparr>
      | None \<Rightarrow> workflow\<lparr>globalSettings := Some env_overrides\<rparr>)"

definition mergeEnvironment :: "ISDLCConfig \<Rightarrow> string \<Rightarrow> ISDLCConfig" where
  "mergeEnvironment config environmentName =
     (case find_environment config environmentName of
        None \<Rightarrow> config
      | Some environment \<Rightarrow>
          (let cloned = clone_config config;
               merged = (case overrides environment of
                           Some ov \<Rightarrow> cloned\<lparr>workflows := map (apply_overrides ov) (workflows cloned)\<rparr>
                         | None \<Rightarrow> cloned)
           in merged\<lparr>metadata := Some (object_assign (object_assign [] (own_props (metadata merged)))
                  [(''appliedEnvironment'', JStr environmentName),
                   (''environmentVariables'', dict_json JStr (variables environment)),
                   (''featureFlags'', dict_json JBool (featureFlags environment))])\<rparr>))"

section \<open>PhaseManager (src/implementations/ConfigLoader.ts, class PhaseManager)\<close>

text \<open>
  The manager's state is its field \<open>config: ISDLCConfig | null\<close>; every query
  reads it and none changes it, so each takes the state as its first argument.
\<close>

definition setConfig :: "ISDLCConfig \<Rightarrow> ISDLCConfig option" where
  "setConfig config = Some config"

definition getWorkflow :: "ISDLCConfig option \<Rightarrow> string \<Rightarrow> ISDLCWorkflow option" where
  "getWorkflow state workflowId =
     (case state of
        None \<Rightarrow> None
      | Some config \<Rightarrow> find (\<lambda>w. wf_id w = workflowId) (workflows config))"

definition getPhase :: "ISDLCConfig option \<Rightarrow> string \<Rightarrow> string \<Rightarrow> ISDLCPhase option" where
  "getPhase state workflowId phaseId =
     (case state of
        None \<Rightarrow> None
      | Some config \<Rightarrow>
          (case find (\<lambda>w. wf_id w = workflowId) (workflows config) of
             None \<Rightarrow> None
           | Some workflow \<Rightarrow> find (\<lambda>p. phase_id p = phaseId) (phases workflow)))"

definition implicit_transition :: "string \<Rightarrow> string \<Rightarrow> ISDLCTransition" where
  "implicit_transition currentPhaseId nextPhaseId =
     \<lparr>tr_from = currentPhaseId,
      tr_to = nextPhaseId,
      conditions = [],
      tr_requiresApproval = None,
      approvers = None,
      tr_metadata = Some [(''implicit'', JBool True)]\<rparr>"

definition getAvailableTransitions :: "ISDLCConfig option \<Rightarrow> string \<Rightarrow> string \<Rightarrow> ISDLCTransition list" where
  "getAvailableTransitions state workflowId currentPhaseId =
     (case state of
        None \<Rightarrow> []
      | Some config \<Rightarrow>
          (case find (\<lambda>w. wf_id w = workflowId) (workflows config) of
             None \<Rightarrow> []
           | Some workflow \<Rightarrow>
               (case getPhase state workflowId currentPhaseId of
                  None \<Rightarrow> []
                | Some phase \<Rightarrow>
                    (let explicitTransitions = filter (\<lambda>t. tr_from t = currentPhaseId) (transitions workflow);
                         explicitTransitionTargets = set (map tr_to explicitTransitions)
                     in foldl (\<lambda>availableTransitions nextPhaseId.
                                 if nextPhaseId \<notin> explicitTransitionTargets
                                 then availableTransitions @ [implicit_transition currentPhaseId nextPhaseId]
                                 else availableTransitions)
                          explicitTransitions (nextPhases phase)))))"

definition canTransition :: "ISDLCConfig option \<Rightarrow> string \<Rightarrow> string \<Rightarrow> string \<Rightarrow> bool" where
  "canTransition state workflowId from_id to_id =
     list_ex (\<lambda>t. tr_to t = to_id) (getAvailableTransitions state workflowId from_id)"

definition validatePhaseCompletion :: "ISDLCConfig option \<Rightarrow> string \<Rightarrow> string \<Rightarrow> IConfigValidationResult" where
  "validatePhaseCompletion state workflowId phaseId =
     (case state of
        None \<Rightarrow>
          \<lparr>valid = False,
           errors = [\<lparr>err_path = ''/'', err_message = ''No configuration loaded'', err_type = Missing\<rparr>],
           warnings = []\<rparr>
      | Some config \<Rightarrow>
          (case getPhase state workflowId phaseId of
             None \<Rightarrow>
               \<lparr>valid = False,
                errors = [\<lparr>err_path = ''/workflows/'' @ workflowId @ ''/phases/'' @ phaseId,
                           err_message = ''Phase not found'',
                           err_type = Missing\<rparr>],
                warnings = []\<rparr>
           | Some phase \<Rightarrow>
               (let errs = [];
                    warns1 = (if length (exitConditions phase) = 0
                              then [\<lparr>warn_path = ''/workflows/'' @ workflowId @ ''/phases/'' @ phaseId
                                                  @ ''/exitConditions'',
                                     warn_message = ''Phase has no exit conditions defined'',
                                     warn_type = BestPractice\<rparr>]
                              else []);
                    availableTransitions = getAvailableTransitions state workflowId phaseId;
                    warns2 = (if length availableTransitions = 0 \<and> length (nextPhases phase) = 0
                              then warns1 @ [\<lparr>warn_path = ''/workflows/'' @ workflowId @ ''/phases/'' @ phaseId,
                                              warn_message = ''Phase has no available transitions or next phases'',
                                              warn_type = BestPractice\<rparr>]
                              else warns1)
                in \<lparr>valid = (length errs = 0), errors = errs, warnings = warns2\<rparr>)))"

definition getAllPhases :: "ISDLCConfig option \<Rightarrow> string \<Rightarrow> ISDLCPhase list" where
  "getAllPhases state workflowId =
     (case getWorkflow state workflowId of None \<Rightarrow> [] | Some workflow \<Rightarrow> phases workflow)"

section \<open>Properties the specification names\<close>

text \<open>
  Every reference resolves to a sibling: in each workflow \<open>initialPhase\<close>, every
  \<open>nextPhases\<close> entry and both endpoints of every transition are ids of phases of
  that workflow, and every task dependency is the id of a task of the same phase.
\<close>

definition task_refs_resolve :: "ISDLCPhase \<Rightarrow> bool" where
  "task_refs_resolve p =
     list_all (\<lambda>t. list_all (\<lambda>d. d \<in> set (map task_id (tasks p)))
                      (case task_dependencies t of None \<Rightarrow> [] | Some ds \<Rightarrow> ds))
       (tasks p)"

definition workflow_refs_resolve :: "ISDLCWorkflow \<Rightarrow> bool" where
  "workflow_refs_resolve w =
     (initialPhase w \<in> set (map phase_id (phases w))
      \<and> list_all (\<lambda>p. list_all (\<lambda>n. n \<in> set (map phase_id (phases w))) (nextPhases p)
                      \<and> task_refs_resolve p) (phases w)
      \<and> list_all (\<lambda>t. tr_from t \<in> set (map phase_id (phases w))
                      \<and> tr_to t \<in> set (map phase_id (phases w))) (transitions w))"

definition references_resolve :: "ISDLCConfig \<Rightarrow> bool" where
  "references_resolve config = list_all workflow_refs_resolve (workflows config)"

text \<open>
  A property of a merged object comes from the override when the override has
  it, from the base otherwise.
\<close>

definition override_wins :: "'a option \<Rightarrow> 'a option \<Rightarrow> 'a option \<Rightarrow> bool" where
  "override_wins base_value override_value merged_value =
     (if override_value = None then merged_value = base_value else merged_value = override_value)"

section \<open>Example configurations\<close>

definition mk_phase :: "string \<Rightarrow> string list \<Rightarrow> string list \<Rightarrow> ISDLCPhase" where
  "mk_phase i exits nexts =
     \<lparr>phase_id = i, phase_name = i, phase_description = None, objectives = [], deliverables = [],
      entryConditions = [], exitConditions = exits, tasks = [], nextPhases = nexts,
      phase_requiresApproval = None, phase_metadata = None\<rparr>"

definition mk_transition :: "string \<Rightarrow> string \<Rightarrow> string list \<Rightarrow> ISDLCTransition" where
  "mk_transition a b conds =
     \<lparr>tr_from = a, tr_to = b, conditions = conds, tr_requiresApproval = None, approvers = None,
      tr_metadata = None\<rparr>"

definition mk_workflow :: "string \<Rightarrow> string \<Rightarrow> ISDLCPhase list \<Rightarrow> ISDLCTransition list \<Rightarrow> ISDLCWorkflow" where
  "mk_workflow i init ps ts =
     \<lparr>wf_id = i, wf_name = i, wf_description = None, wf_version = ''1.0.0'', initialPhase = init,
      phases = ps, transitions = ts, globalSettings = None, wf_metadata = None\<rparr>"

definition mk_config :: "string \<Rightarrow> ISDLCWorkflow list \<Rightarrow> ISDLCConfig" where
  "mk_config v ws =
     \<lparr>version = v, workflows = ws, environments = None, defaultWorkflow = None,
      defaultEnvironment = None, metadata = None\<rparr>"

text \<open>
  The shape of the unit tests' workflow: \<open>p1\<close> has an explicit transition to
  \<open>p2\<close> and lists \<open>p2\<close> and \<open>p3\<close> as next phases; \<open>p3\<close> is a dead end without
  exit conditions.
\<close>

definition test_workflow :: ISDLCWorkflow where
  "test_workflow =
     mk_workflow ''w'' ''p1''
       [mk_phase ''p1'' [''x''] [''p2'', ''p3''], mk_phase ''p2'' [''x''] [''p3''], mk_phase ''p3'' [] []]
       [mk_transition ''p1'' ''p2'' [''c1''], mk_transition ''p2'' ''p3'' [''c2'']]"

definition test_config :: ISDLCConfig where
  "test_config = mk_config ''1.0.0'' [test_workflow]"

text \<open>
  Two explicit transitions from \<open>a\<close> to \<open>b\<close> under different conditions, and a
  next-phase list that names \<open>c\<close> twice.
\<close>

definition repeated_targets_config :: ISDLCConfig where
  "repeated_targets_config =
     mk_config ''1.0.0''
       [mk_workflow ''w'' ''a''
          [mk_phase ''a'' [''x''] [''b'', ''c'', ''c''], mk_phase ''b'' [''x''] [], mk_phase ''c'' [''x''] []]
          [mk_transition ''a'' ''b'' [''fast''], mk_transition ''a'' ''b'' [''slow'']]]"

text \<open>
  A workflow whose first phase has three tasks: \<open>t2\<close> depends on \<open>t1\<close>, and
  \<open>t3\<close> on both. Every reference resolves.
\<close>

definition mk_task :: "string \<Rightarrow> string list option \<Rightarrow> ISDLCTask" where
  "mk_task i deps =
     \<lparr>task_id = i, task_name = i, task_description = None, task_type = Manual, task_required = True,
      task_dependencies = deps, estimatedDuration = None, assignee = None, tools = None,
      outputs = None\<rparr>"

definition tasks_config :: ISDLCConfig where
  "tasks_config =
     mk_config ''1.0.0''
       [mk_workflow ''w'' ''a''
          [(mk_phase ''a'' [''x''] [''b''])
             \<lparr>tasks := [mk_task ''t1'' None, mk_task ''t2'' (Some [''t1'']),
                        mk_task ''t3'' (Some [''t1'', ''t2''])]\<rparr>,
           mk_phase ''b'' [''x''] []]
          [mk_transition ''a'' ''b'' [''c'']]]"

text \<open>Phase \<open>b\<close> is the source of a transition and nothing points at it.\<close>

definition source_only_config :: ISDLCConfig where
  "source_only_config =
     mk_config ''1.0.0''
       [mk_workflow ''w'' ''a'' [mk_phase ''a'' [''x''] [], mk_phase ''b'' [''x''] []]
          [mk_transition ''b'' ''a'' []]]"

text \<open>Phase \<open>b\<close> is referenced by nothing at all.\<close>

definition orphan_config :: ISDLCConfig where
  "orphan_config =
     mk_config ''1.0.0'' [mk_workflow ''w'' ''a'' [mk_phase ''a'' [''x''] [], mk_phase ''b'' [''x''] []] []]"

text \<open>A base with a default workflow, and an override whose \<open>defaultWorkflow\<close> is the empty string.\<close>

definition base_config :: ISDLCConfig where
  "base_config = (mk_config ''1.0.0'' [mk_workflow ''main'' ''a'' [mk_phase ''a'' [''x''] []] []])
     \<lparr>defaultWorkflow := Some ''main''\<rparr>"

definition empty_default_config :: ISDLCConfig where
  "empty_default_config = (mk_config ''1.1.0'' [mk_workflow ''main'' ''a'' [mk_phase ''a'' [''x''] []] []])
     \<lparr>defaultWorkflow := Some []\<rparr>"

text \<open>A configuration with one environment, \<open>dev\<close>.\<close>

definition dev_config :: ISDLCConfig where
  "dev_config = (mk_config ''1.0.0'' [mk_workflow ''w'' ''a'' [mk_phase ''a'' [''x''] []] []])
     \<lparr>environments := Some [\<lparr>env_name = ''dev'', env_description = None, overrides = None,
                               featureFlags = None, variables = None\<rparr>]\<rparr>"

text \<open>
  Settings of a base and of an override: the override turns approval off,
  replaces the approvers and sets one of the two timeouts of the base.
\<close>

definition base_settings :: IWorkflowSettings where
  "base_settings =
     \<lparr>requireApprovalForTransitions = Some True,
      defaultApprovers = Some [''alice'', ''bob''],
      notificationChannels = Some [''mail''],
      timeoutSettings = Some \<lparr>phaseTimeout = Some ''7 days'', taskTimeout = Some ''24 hours'',
                              approvalTimeout = None, warningThreshold = None\<rparr>,
      integrations = None\<rparr>"

definition override_settings :: IWorkflowSettings where
  "override_settings =
     \<lparr>requireApprovalForTransitions = Some False,
      defaultApprovers = Some [''bob'', ''carol''],
      notificationChannels = None,
      timeoutSettings = Some \<lparr>phaseTimeout = Some ''14 days'', taskTimeout = None,
                              approvalTimeout = None, warningThreshold = None\<rparr>,
      integrations = None\<rparr>"

text \<open>A next-phase entry and a transition target name phases that do not exist.\<close>

definition dangling_config :: ISDLCConfig where
  "dangling_config =
     mk_config ''1.0.0''
       [mk_workflow ''w'' ''a'' [mk_phase ''a'' [''x''] [''ghost'']] [mk_transition ''a'' ''nowhere'' []]]"

text \<open>A parser that returns the same document for every text.\<close>

definition const_load :: "ISDLCConfig \<Rightarrow> string \<Rightarrow> exn + ISDLCConfig" where
  "const_load config content = Inr config"

section \<open>Validation and loading\<close>

lemmas fixture_defs = mk_config_def mk_workflow_def mk_phase_def mk_transition_def

lemmas schema_defs = sdlcConfigSchema_validate_def sdlcConfigSchema_errors_def
  workflow_schema_errors_def threshold_errors_def matches_version_pattern_def is_digit_def

lemmas validate_defs = validate_def schema_errors_def schema_error_def workflow_errors_def
  check_nextPhases_def check_task_dependencies_def check_transition_def unused_warnings_def
  unused_warning_def referencedPhases_def deprecated_warnings_def

text \<open>An indexed \<open>forEach\<close> that pushes nothing for any element pushes nothing at all.\<close>

lemma concat_enumerate_Nil:
  "(\<And>i x. x \<in> set xs \<Longrightarrow> f i x = []) \<Longrightarrow> concat (map (\<lambda>(i, x). f i x) (enumerate n xs)) = []"
  by (induction xs arbitrary: n) auto

text \<open>What the element at index \<open>i\<close> pushes is part of what the whole \<open>forEach\<close> pushes.\<close>

lemma concat_enumerate_mem:
  assumes "i < length xs" and "y \<in> set (f i (xs ! i))"
  shows "y \<in> set (concat (map (\<lambda>(i, x). f i x) (enumerate 0 xs)))"
proof -
  have "(i, xs ! i) \<in> set (enumerate 0 xs)"
    using assms(1) by (simp add: in_set_enumerate_eq)
  with assms(2) show ?thesis by force
qed

lemma check_nextPhases_Nil:
  assumes "list_all (\<lambda>n. n \<in> ids) (nextPhases p)"
  shows "check_nextPhases ids wIndex pIndex p = []"
  unfolding check_nextPhases_def
  by (rule concat_enumerate_Nil) (use assms in \<open>simp add: list_all_iff\<close>)

lemma check_task_dependencies_Nil:
  assumes "task_refs_resolve p"
  shows "check_task_dependencies wIndex pIndex p = []"
  unfolding check_task_dependencies_def Let_def
proof (rule concat_enumerate_Nil)
  fix tIndex t assume t: "t \<in> set (tasks p)"
  show "concat (map (\<lambda>(dIndex, depId).
          if depId \<notin> set (map task_id (tasks p))
          then [\<lparr>err_path = ''/workflows/'' @ show_nat wIndex @ ''/phases/'' @ show_nat pIndex
                            @ ''/tasks/'' @ show_nat tIndex @ ''/dependencies/'' @ show_nat dIndex,
                 err_message = ''Task dependency '' @ apostrophe @ depId @ apostrophe
                            @ '' not found in phase tasks'',
                 err_type = Reference\<rparr>]
          else [])
        (enumerate 0 (case task_dependencies t of None \<Rightarrow> [] | Some ds \<Rightarrow> ds))) = []"
    by (rule concat_enumerate_Nil)
      (use assms t in \<open>simp add: task_refs_resolve_def list_all_iff\<close>)
qed

lemma check_transition_Nil:
  "tr_from t \<in> ids \<Longrightarrow> tr_to t \<in> ids \<Longrightarrow> check_transition ids wIndex tIndex t = []"
  by (simp add: check_transition_def)

lemma workflow_errors_Nil:
  assumes "workflow_refs_resolve w"
  shows "workflow_errors wIndex w = []"
proof -
  let ?ids = "set (map phase_id (phases w))"
  have init: "initialPhase w \<in> ?ids"
    using assms by (simp add: workflow_refs_resolve_def)
  have phs: "concat (map (\<lambda>(pIndex, phase).
          check_nextPhases ?ids wIndex pIndex phase @ check_task_dependencies wIndex pIndex phase)
        (enumerate 0 (phases w))) = []"
    by (rule concat_enumerate_Nil)
      (use assms in \<open>simp add: workflow_refs_resolve_def list_all_iff check_nextPhases_Nil
          check_task_dependencies_Nil\<close>)
  have trs: "concat (map (\<lambda>(tIndex, transition). check_transition ?ids wIndex tIndex transition)
        (enumerate 0 (transitions w))) = []"
    by (rule concat_enumerate_Nil)
      (use assms in \<open>simp add: workflow_refs_resolve_def list_all_iff check_transition_Nil\<close>)
  show ?thesis
    unfolding workflow_errors_def Let_def using init phs trs by simp
qed

text \<open>
  Claim C2. A configuration is a document the schema accepts: the data model
  gives it a version of the form \<open>n.n.n\<close> and at least one workflow, and
  \<open>validate\<close> checks the references of what the schema validator has accepted.
  For every configuration, so understood, in which every \<open>nextPhases\<close> id,
  every transition endpoint, every \<open>initialPhase\<close> and every task dependency id
  resolves to a sibling id, \<open>validate\<close> returns \<open>valid = true\<close> and an empty
  error list. It holds for whatever validator the loader was built with.
\<close>

theorem validate_accepts_resolved_references:
  assumes "ajv_valid (validateFunction config)"
    and "references_resolve config"
  shows "valid (validate validateFunction config) \<and> errors (validate validateFunction config) = []"
proof -
  have s: "schema_errors (validateFunction config) = []"
    using assms(1) by (simp add: schema_errors_def)
  have w: "concat (map (\<lambda>(wIndex, workflow). workflow_errors wIndex workflow)
             (enumerate 0 (workflows config))) = []"
    by (rule concat_enumerate_Nil)
      (use assms(2) in \<open>simp add: references_resolve_def list_all_iff workflow_errors_Nil\<close>)
  show ?thesis by (simp add: validate_def s w)
qed

text \<open>
  The theorem at a configuration with next phases, a transition and task
  dependencies, all resolving, and the compiled schema.
\<close>

theorem validate_accepts_resolved_references_witness:
  "ajv_valid (sdlcConfigSchema_validate tasks_config)
   \<and> references_resolve tasks_config
   \<and> concat (map (\<lambda>t. case task_dependencies t of None \<Rightarrow> [] | Some ds \<Rightarrow> ds)
         (concat (map tasks (concat (map phases (workflows tasks_config))))))
       = [''t1'', ''t1'', ''t2'']
   \<and> valid (validate sdlcConfigSchema_validate tasks_config)
   \<and> errors (validate sdlcConfigSchema_validate tasks_config) = []"
proof -
  have a: "ajv_valid (sdlcConfigSchema_validate tasks_config)"
    by (simp add: schema_defs tasks_config_def mk_task_def fixture_defs)
  have r: "references_resolve tasks_config"
    by (simp add: references_resolve_def workflow_refs_resolve_def task_refs_resolve_def
        tasks_config_def mk_task_def fixture_defs)
  have d: "concat (map (\<lambda>t. case task_dependencies t of None \<Rightarrow> [] | Some ds \<Rightarrow> ds)
         (concat (map tasks (concat (map phases (workflows tasks_config))))))
       = [''t1'', ''t1'', ''t2'']"
    by (simp add: tasks_config_def mk_task_def fixture_defs)
  from validate_accepts_resolved_references [of sdlcConfigSchema_validate tasks_config, OF a r] a r d
  show ?thesis by simp
qed

text \<open>
  Claim C3, as the code has it. Let \<open>w\<close> be the workflow at index \<open>wIdx\<close> and
  \<open>p\<close> its phase at index \<open>pIdx\<close>. If the id of \<open>p\<close> is not the initial phase of
  \<open>w\<close>, is the \<open>to\<close> of no transition of \<open>w\<close>, is the \<open>from\<close> of no transition of
  \<open>w\<close>, and is in no \<open>nextPhases\<close> list of \<open>w\<close>, then \<open>validate\<close> emits the
  warning of type unused at path \<open>/workflows/{wIdx}/phases/{pIdx}\<close>.
\<close>

theorem unreferenced_phase_is_flagged:
  assumes "wIdx < length (workflows config)"
    and "w = workflows config ! wIdx"
    and "pIdx < length (phases w)"
    and "p = phases w ! pIdx"
    and "phase_id p \<noteq> initialPhase w"
    and "phase_id p \<notin> set (map tr_to (transitions w))"
    and "phase_id p \<notin> set (map tr_from (transitions w))"
    and "phase_id p \<notin> set (concat (map nextPhases (phases w)))"
  shows "\<lparr>warn_path = ''/workflows/'' @ show_nat wIdx @ ''/phases/'' @ show_nat pIdx,
          warn_message = ''Phase '' @ apostrophe @ phase_id p @ apostrophe
                       @ '' is not referenced by any transition or phase'',
          warn_type = Unused\<rparr>
         \<in> set (warnings (validate validateFunction config))"
proof -
  have unref: "phase_id p \<notin> set (referencedPhases w)"
    using assms(5-8) by (auto simp: referencedPhases_def)
  have "unused_warning wIdx pIdx p \<in> set (unused_warnings wIdx w)"
    unfolding unused_warnings_def
    by (rule concat_enumerate_mem [OF assms(3)]) (use unref assms(4) in simp)
  then have "unused_warning wIdx pIdx p \<in> set (unused_warnings wIdx (workflows config ! wIdx))"
    using assms(2) by simp
  then have "unused_warning wIdx pIdx p
      \<in> set (concat (map (\<lambda>(wIndex, workflow). unused_warnings wIndex workflow)
                 (enumerate 0 (workflows config))))"
    by (rule concat_enumerate_mem [OF assms(1)])
  then show ?thesis
    by (simp add: validate_def unused_warning_def)
qed

text \<open>The theorem at a configuration whose second phase nothing refers to.\<close>

theorem unreferenced_phase_is_flagged_witness:
  "phase_id (phases (workflows orphan_config ! 0) ! 1) = ''b''
   \<and> ''b'' \<noteq> initialPhase (workflows orphan_config ! 0)
   \<and> ''b'' \<notin> set (map tr_to (transitions (workflows orphan_config ! 0)))
   \<and> ''b'' \<notin> set (map tr_from (transitions (workflows orphan_config ! 0)))
   \<and> ''b'' \<notin> set (concat (map nextPhases (phases (workflows orphan_config ! 0))))
   \<and> \<lparr>warn_path = ''/workflows/0/phases/1'',
       warn_message = ''Phase '' @ apostrophe @ ''b'' @ apostrophe
                    @ '' is not referenced by any transition or phase'',
       warn_type = Unused\<rparr>
      \<in> set (warnings (validate sdlcConfigSchema_validate orphan_config))"
proof -
  let ?w = "workflows orphan_config ! 0"
  let ?p = "phases ?w ! 1"
  have i: "0 < length (workflows orphan_config)" "1 < length (phases ?w)"
    by (simp_all add: orphan_config_def fixture_defs)
  have b: "phase_id ?p = ''b''"
    by (simp add: orphan_config_def fixture_defs)
  have h: "''b'' \<noteq> initialPhase ?w"
    "''b'' \<notin> set (map tr_to (transitions ?w))"
    "''b'' \<notin> set (map tr_from (transitions ?w))"
    "''b'' \<notin> set (concat (map nextPhases (phases ?w)))"
    by (simp_all add: orphan_config_def fixture_defs)
  have s: "show_nat 0 = ''0''" "show_nat 1 = ''1''"
    by (simp_all add: show_nat.simps digit_char_def)
  have hp: "phase_id ?p \<noteq> initialPhase ?w"
    "phase_id ?p \<notin> set (map tr_to (transitions ?w))"
    "phase_id ?p \<notin> set (map tr_from (transitions ?w))"
    "phase_id ?p \<notin> set (concat (map nextPhases (phases ?w)))"
    unfolding b by (rule h)+
  note flagged = unreferenced_phase_is_flagged [of 0 orphan_config ?w 1 ?p sdlcConfigSchema_validate,
      OF i(1) refl i(2) refl hp, unfolded b s]
  from flagged b h show ?thesis by simp
qed

text \<open>
  Claim C3 as stated fails: the code adds the \<open>from\<close> of every transition to the
  referenced ids as well. Below, phase \<open>b\<close> (index 1 of workflow 0) is not the
  initial phase, is the target of no transition and in no \<open>nextPhases\<close> list,
  but is the source of a transition; \<open>validate\<close> emits no warning at all.
\<close>

theorem source_only_phase_counterexample:
  "phase_id (phases (workflows source_only_config ! 0) ! 1) = ''b''
   \<and> ''b'' \<noteq> initialPhase (workflows source_only_config ! 0)
   \<and> ''b'' \<notin> set (map tr_to (transitions (workflows source_only_config ! 0)))
   \<and> ''b'' \<notin> set (concat (map nextPhases (phases (workflows source_only_config ! 0))))
   \<and> ''b'' \<in> set (map tr_from (transitions (workflows source_only_config ! 0)))
   \<and> warnings (validate sdlcConfigSchema_validate source_only_config) = []"
  by (simp add: validate_defs schema_defs source_only_config_def fixture_defs)

lemma join_not_Nil: "xs \<noteq> [] \<Longrightarrow> list_all (\<lambda>x. x \<noteq> []) xs \<Longrightarrow> join sep xs \<noteq> []"
  by (induction sep xs rule: join.induct) auto

lemma error_line_fun: "error_line = (\<lambda>e. err_path e @ '': '' @ err_message e)"
  by (rule ext) (simp add: error_line_def)

text \<open>
  Claim C9. If the text parses to a configuration that the schema validator
  accepts and for which \<open>validate\<close> collects a non-empty error list, then
  \<open>loadFromString\<close> throws an error whose message is \<open>Invalid configuration: \<close>
  followed by the lines \<open>{path}: {message}\<close> of all collected errors, in order,
  joined by a comma and a space.
\<close>

theorem load_failure_lists_all_errors:
  assumes "yaml_load content = Inr config"
    and "ajv_valid (validateFunction config)"
    and "errors (validate validateFunction config) \<noteq> []"
  shows "loadFromString yaml_load validateFunction content =
           Inl (Error (''Invalid configuration: ''
             @ join '', '' (map (\<lambda>e. err_path e @ '': '' @ err_message e)
                 (errors (validate validateFunction config)))))"
proof -
  let ?es = "errors (validate validateFunction config)"
  let ?joined = "join '', '' (map (\<lambda>e. err_path e @ '': '' @ err_message e) ?es)"
  have inv: "\<not> valid (validate validateFunction config)"
    using assms(3) by (simp add: validate_def Let_def)
  have "list_all (\<lambda>x. x \<noteq> []) (map (\<lambda>e. err_path e @ '': '' @ err_message e) ?es)"
    by (simp add: list_all_iff)
  with assms(3) have "?joined \<noteq> []"
    by (simp add: join_not_Nil)
  then have truthy: "or_string ?joined ''Unknown validation error'' = ?joined"
    by (simp add: or_string_def)
  have "loadFromString yaml_load validateFunction content =
          Inl (Error (''Invalid configuration: '' @ or_string ?joined ''Unknown validation error''))"
    using assms(1) inv by (simp add: loadFromString_def Let_def error_line_fun)
  then show ?thesis
    by (simp only: truthy)
qed

text \<open>
  The theorem at a document with two dangling references: both errors are in
  the one message.
\<close>

theorem load_failure_lists_all_errors_witness:
  "const_load dangling_config ''doc'' = Inr dangling_config
   \<and> ajv_valid (sdlcConfigSchema_validate dangling_config)
   \<and> length (errors (validate sdlcConfigSchema_validate dangling_config)) = 2
   \<and> loadFromString (const_load dangling_config) sdlcConfigSchema_validate ''doc'' =
       Inl (Error (''Invalid configuration: ''
         @ ''/workflows/0/phases/0/nextPhases/0: Next phase '' @ apostrophe @ ''ghost'' @ apostrophe
         @ '' not found in workflow phases''
         @ '', ''
         @ ''/workflows/0/transitions/0/to: Transition target phase '' @ apostrophe @ ''nowhere''
         @ apostrophe @ '' not found''))"
proof -
  have l: "const_load dangling_config ''doc'' = Inr dangling_config"
    by (simp add: const_load_def)
  have a: "ajv_valid (sdlcConfigSchema_validate dangling_config)"
    by (simp add: schema_defs dangling_config_def fixture_defs)
  have s: "show_nat 0 = ''0''"
    by (simp add: show_nat.simps digit_char_def)
  have e: "errors (validate sdlcConfigSchema_validate dangling_config) =
     [\<lparr>err_path = ''/workflows/0/phases/0/nextPhases/0'',
       err_message = ''Next phase '' @ apostrophe @ ''ghost'' @ apostrophe @ '' not found in workflow phases'',
       err_type = Reference\<rparr>,
      \<lparr>err_path = ''/workflows/0/transitions/0/to'',
       err_message = ''Transition target phase '' @ apostrophe @ ''nowhere'' @ apostrophe @ '' not found'',
       err_type = Reference\<rparr>]"
    by (simp add: validate_defs schema_defs dangling_config_def fixture_defs s)
  have n: "errors (validate sdlcConfigSchema_validate dangling_config) \<noteq> []"
    by (simp add: e)
  from load_failure_lists_all_errors [of "const_load dangling_config" "''doc''" dangling_config
      sdlcConfigSchema_validate, OF l a n]
  show ?thesis by (simp add: l a e)
qed

section \<open>Merging\<close>

text \<open>
  Claim C4. For settings \<open>base\<close> and \<open>override\<close>, both present,
  \<open>mergeWorkflowSettings\<close> returns settings in which
  \<open>requireApprovalForTransitions\<close>, \<open>defaultApprovers\<close> and
  \<open>notificationChannels\<close> are the override's when the override has them (a
  \<open>false\<close> and an empty array included) and the base's otherwise, and in which
  \<open>timeoutSettings\<close> and \<open>integrations\<close> are objects whose every property is
  the override's when the override's object has it and the base's otherwise.
\<close>

theorem settings_merge_rule:
  "\<exists>m. mergeWorkflowSettings (Some base) (Some override) = Some m
     \<and> override_wins (requireApprovalForTransitions base) (requireApprovalForTransitions override)
         (requireApprovalForTransitions m)
     \<and> override_wins (defaultApprovers base) (defaultApprovers override) (defaultApprovers m)
     \<and> override_wins (notificationChannels base) (notificationChannels override) (notificationChannels m)
     \<and> (\<exists>ts. timeoutSettings m = Some ts
          \<and> override_wins (own_field phaseTimeout (timeoutSettings base))
              (own_field phaseTimeout (timeoutSettings override)) (phaseTimeout ts)
          \<and> override_wins (own_field taskTimeout (timeoutSettings base))
              (own_field taskTimeout (timeoutSettings override)) (taskTimeout ts)
          \<and> override_wins (own_field approvalTimeout (timeoutSettings base))
              (own_field approvalTimeout (timeoutSettings override)) (approvalTimeout ts)
          \<and> override_wins (own_field warningThreshold (timeoutSettings base))
              (own_field warningThreshold (timeoutSettings override)) (warningThreshold ts))
     \<and> (\<exists>ig. integrations m = Some ig
          \<and> override_wins (own_field githubEnabled (integrations base))
              (own_field githubEnabled (integrations override)) (githubEnabled ig)
          \<and> override_wins (own_field slackEnabled (integrations base))
              (own_field slackEnabled (integrations override)) (slackEnabled ig)
          \<and> override_wins (own_field emailEnabled (integrations base))
              (own_field emailEnabled (integrations override)) (emailEnabled ig)
          \<and> override_wins (own_field webhookUrl (integrations base))
              (own_field webhookUrl (integrations override)) (webhookUrl ig)
          \<and> override_wins (own_field customIntegrations (integrations base))
              (own_field customIntegrations (integrations override)) (customIntegrations ig))"
proof -
  have w: "override_wins b ov (nullish ov b)" "override_wins b ov (or_object ov b)"
    "override_wins b ov (spread_field b ov)" for b ov :: "'x option"
    by (cases ov; simp add: override_wins_def nullish_def or_object_def spread_field_def)+
  show ?thesis
    by (simp add: w spread_timeoutSettings_def spread_integrations_def)
qed

text \<open>
  On the example settings: \<open>false\<close> wins over \<open>true\<close>, the approvers are the
  override's two (not the three of a union), the channels stay the base's, and
  the timeouts are merged property by property.
\<close>

lemma settings_merge_example:
  "mergeWorkflowSettings (Some base_settings) (Some override_settings) =
     Some \<lparr>requireApprovalForTransitions = Some False,
           defaultApprovers = Some [''bob'', ''carol''],
           notificationChannels = Some [''mail''],
           timeoutSettings = Some \<lparr>phaseTimeout = Some ''14 days'', taskTimeout = Some ''24 hours'',
                                   approvalTimeout = None, warningThreshold = None\<rparr>,
           integrations = Some \<lparr>githubEnabled = None, slackEnabled = None, emailEnabled = None,
                                webhookUrl = None, customIntegrations = None\<rparr>\<rparr>"
  by (simp add: base_settings_def override_settings_def spread_timeoutSettings_def
      spread_integrations_def spread_field_def own_field_def nullish_def or_object_def)

text \<open>
  Claim C5, as the code has it. In \<open>merge(base, override)\<close> each of \<open>version\<close>,
  \<open>defaultWorkflow\<close> and \<open>defaultEnvironment\<close> is the override's value when the
  override has the field and it is not the empty string, and the base's value
  otherwise.
\<close>

theorem merge_scalar_fields:
  "version (merge base override) = (if version override \<noteq> [] then version override else version base)
   \<and> defaultWorkflow (merge base override)
       = (case defaultWorkflow override of
            Some s \<Rightarrow> if s \<noteq> [] then Some s else defaultWorkflow base
          | None \<Rightarrow> defaultWorkflow base)
   \<and> defaultEnvironment (merge base override)
       = (case defaultEnvironment override of
            Some s \<Rightarrow> if s \<noteq> [] then Some s else defaultEnvironment base
          | None \<Rightarrow> defaultEnvironment base)"
  by (simp add: merge_def or_string_def or_string_opt_def)

text \<open>
  Claim C5 as stated fails: \<open>||\<close> takes the base's value when the override's is
  the empty string. Both configurations below pass validation; the override has
  \<open>defaultWorkflow\<close> present, as the empty string, and the merged configuration
  keeps the base's \<open>main\<close>.
\<close>

theorem empty_default_counterexample:
  "valid (validate sdlcConfigSchema_validate base_config)
   \<and> valid (validate sdlcConfigSchema_validate empty_default_config)
   \<and> defaultWorkflow empty_default_config = Some []
   \<and> defaultWorkflow (merge base_config empty_default_config) = Some ''main''"
  by (simp add: merge_def or_string_opt_def validate_defs schema_defs base_config_def
      empty_default_config_def fixture_defs)

text \<open>Keys of a \<open>Map\<close> after \<open>set\<close>, and after a loop of \<open>set\<close> calls keyed by \<open>key\<close>.\<close>

lemma map_fst_map_set:
  "map fst (map_set k v m) = (if k \<in> set (map fst m) then map fst m else map fst m @ [k])"
  by (induction m) auto

lemma keys_map_set: "fst ` set (map_set k v m) = insert k (fst ` set m)"
  by (induction m) auto

lemma set_map_set_subset: "set (map_set k v m) \<subseteq> insert (k, v) (set m)"
  by (induction m) auto

lemma foldl_map_set_keys:
  "fst ` set (foldl (\<lambda>m w. map_set (key w) (g m w) m) m ws) = fst ` set m \<union> key ` set ws"
  by (induction ws arbitrary: m) (simp_all add: keys_map_set)

lemma foldl_map_set_distinct:
  "distinct (map fst m) \<Longrightarrow> distinct (map fst (foldl (\<lambda>m w. map_set (key w) (g m w) m) m ws))"
  by (induction ws arbitrary: m) (auto simp: map_fst_map_set)

text \<open>Every value sits under its own key, as long as each stored value has the key it is stored under.\<close>

lemma foldl_map_set_keyed:
  assumes "\<And>m w. key (g m w) = key w"
    and "list_all (\<lambda>e. key (snd e) = fst e) m"
  shows "list_all (\<lambda>e. key (snd e) = fst e) (foldl (\<lambda>m w. map_set (key w) (g m w) m) m ws)"
  using assms(2)
proof (induction ws arbitrary: m)
  case Nil
  then show ?case by simp
next
  case (Cons w ws)
  have "list_all (\<lambda>e. key (snd e) = fst e) (map_set (key w) (g m w) m)"
    using Cons.prems set_map_set_subset [of "key w" "g m w" m] assms(1)
    by (auto simp: list_all_iff)
  then show ?case by (simp add: Cons.IH)
qed

lemma keyed_values: "list_all (\<lambda>e. key (snd e) = fst e) m \<Longrightarrow> map key (map_values m) = map fst m"
  by (induction m) (auto simp: map_values_def)

lemma wf_id_mergeWorkflow: "wf_id (mergeWorkflow existing workflow) = wf_id workflow"
  by (simp add: mergeWorkflow_def)

lemma mergeWorkflows_Cons:
  assumes "ows \<noteq> []"
  shows "mergeWorkflows bws (Some ows) =
     map_values (foldl (\<lambda>m w. map_set (wf_id w)
          (case map_get m (wf_id w) of Some existing \<Rightarrow> mergeWorkflow existing w | None \<Rightarrow> w) m)
        (foldl (\<lambda>m w. map_set (wf_id w) w m) [] bws) ows)"
proof -
  have "(\<lambda>workflowMap workflow.
           (case map_get workflowMap (wf_id workflow) of
              Some existing \<Rightarrow> map_set (wf_id workflow) (mergeWorkflow existing workflow) workflowMap
            | None \<Rightarrow> map_set (wf_id workflow) workflow workflowMap))
      = (\<lambda>m w. map_set (wf_id w)
          (case map_get m (wf_id w) of Some existing \<Rightarrow> mergeWorkflow existing w | None \<Rightarrow> w) m)"
    by (intro ext) (simp split: option.split)
  with assms show ?thesis by (simp add: mergeWorkflows_def Let_def)
qed

lemma mergeWorkflows_ids:
  "distinct (map wf_id (mergeWorkflows ws (Some ws)))
   \<and> set (map wf_id (mergeWorkflows ws (Some ws))) = set (map wf_id ws)"
proof (cases "ws = []")
  case True
  then show ?thesis by (simp add: mergeWorkflows_def)
next
  case False
  let ?g = "\<lambda>m w. case map_get m (wf_id w) of Some existing \<Rightarrow> mergeWorkflow existing w | None \<Rightarrow> w"
  let ?base = "foldl (\<lambda>m w. map_set (wf_id w) w m) [] ws"
  let ?M = "foldl (\<lambda>m w. map_set (wf_id w) (?g m w) m) ?base ws"
  have g: "wf_id (?g m w) = wf_id w" for m w
    by (simp add: wf_id_mergeWorkflow split: option.split)
  have kb: "list_all (\<lambda>e. wf_id (snd e) = fst e) ?base"
    by (rule foldl_map_set_keyed [where g = "\<lambda>m w. w"]) simp_all
  have kM: "list_all (\<lambda>e. wf_id (snd e) = fst e) ?M"
    by (rule foldl_map_set_keyed [where g = ?g, OF g kb])
  have ids: "map wf_id (map_values ?M) = map fst ?M"
    by (rule keyed_values [OF kM])
  have db: "distinct (map fst ?base)"
    by (rule foldl_map_set_distinct [where g = "\<lambda>m w. w"]) simp
  have dM: "distinct (map fst ?M)"
    by (rule foldl_map_set_distinct [where g = ?g, OF db])
  have sb: "set (map fst ?base) = set (map wf_id ws)"
    using foldl_map_set_keys [where g = "\<lambda>m w. w" and key = wf_id and m = "[]" and ws = ws] by simp
  have sM: "set (map fst ?M) = set (map wf_id ws)"
    using foldl_map_set_keys [where g = ?g and key = wf_id and m = ?base and ws = ws] sb by simp
  show ?thesis
    unfolding mergeWorkflows_Cons [OF False] ids using dM sM by simp
qed

text \<open>
  Claim C6. The workflows of \<open>merge(A, A)\<close> have pairwise distinct ids, and
  their ids are exactly the ids of the workflows of \<open>A\<close>: one workflow per
  distinct id, also when \<open>A\<close> itself lists an id twice.
\<close>

theorem merge_self_one_workflow_per_id:
  "distinct (map wf_id (workflows (merge A A)))
   \<and> set (map wf_id (workflows (merge A A))) = set (map wf_id (workflows A))"
  using mergeWorkflows_ids [of "workflows A"] by (simp add: merge_def)

text \<open>
  Two examples: a configuration merged with itself, and a base whose list names
  the id \<open>a\<close> twice merged with an override that adds \<open>c\<close> and overrides \<open>a\<close>.
  Base workflows keep their place, new ones are appended.
\<close>

lemma merge_examples:
  "map wf_id (workflows (merge test_config test_config)) = [''w'']
   \<and> map wf_id (workflows (merge
         (mk_config ''1.0.0'' [mk_workflow ''a'' ''p'' [] [], mk_workflow ''b'' ''p'' [] [],
            mk_workflow ''a'' ''q'' [] []])
         (mk_config ''1.0.0'' [mk_workflow ''c'' ''p'' [] [], mk_workflow ''a'' ''z'' [] []])))
       = [''a'', ''b'', ''c'']"
  by (simp add: merge_def mergeWorkflows_def mergeWorkflow_def map_get_def map_values_def
      test_config_def test_workflow_def fixture_defs)

text \<open>
  Claim C7. If no entry of \<open>environments\<close> has the given name (in particular if
  \<open>environments\<close> is absent), \<open>mergeEnvironment\<close> returns the configuration it
  was given. The function has no failing branch: its result is a configuration.
\<close>

theorem mergeEnvironment_absent_is_identity:
  assumes "environmentName \<notin> set (map env_name (case environments config of None \<Rightarrow> [] | Some envs \<Rightarrow> envs))"
  shows "mergeEnvironment config environmentName = config"
proof -
  have "find_environment config environmentName = None"
    using assms by (auto simp: find_environment_def find_None_iff split: option.split)
  then show ?thesis by (simp add: mergeEnvironment_def)
qed

text \<open>
  The theorem at a configuration whose only environment is \<open>dev\<close>, and at one
  without environments.
\<close>

theorem mergeEnvironment_absent_is_identity_witness:
  "''prod'' \<notin> set (map env_name (case environments dev_config of None \<Rightarrow> [] | Some envs \<Rightarrow> envs))
   \<and> mergeEnvironment dev_config ''prod'' = dev_config
   \<and> mergeEnvironment test_config ''prod'' = test_config"
proof -
  have a: "''prod'' \<notin> set (map env_name (case environments dev_config of None \<Rightarrow> [] | Some envs \<Rightarrow> envs))"
    by (simp add: dev_config_def fixture_defs)
  have b: "''prod'' \<notin> set (map env_name (case environments test_config of None \<Rightarrow> [] | Some envs \<Rightarrow> envs))"
    by (simp add: test_config_def fixture_defs)
  from mergeEnvironment_absent_is_identity [OF a] mergeEnvironment_absent_is_identity [OF b] a
  show ?thesis by simp
qed

section \<open>Phase navigation\<close>

text \<open>
  The queries find a workflow, and a phase in it, by id with \<open>find\<close>, which
  returns the first match. Where ids are unique, as the data model asks, every
  workflow of the configuration and every phase of a workflow is the one its id
  finds.
\<close>

lemma find_unique_key:
  "distinct (map key xs) \<Longrightarrow> x \<in> set xs \<Longrightarrow> find (\<lambda>y. key y = key x) xs = Some x"
  by (induction xs) (auto simp: rev_image_eqI)

text \<open>The loop that pushes implicit transitions appends one per next phase that passes the test.\<close>

lemma foldl_push:
  "foldl (\<lambda>acc n. if n \<notin> T then acc @ [f n] else acc) E ns = E @ map f (filter (\<lambda>n. n \<notin> T) ns)"
  by (induction ns arbitrary: E) auto

lemma getAvailableTransitions_found:
  assumes "find (\<lambda>x. wf_id x = wid) (workflows cfg) = Some w"
    and "find (\<lambda>x. phase_id x = pid) (phases w) = Some p"
  shows "getAvailableTransitions (Some cfg) wid pid =
           filter (\<lambda>t. tr_from t = pid) (transitions w)
           @ map (implicit_transition pid)
               (filter (\<lambda>n. n \<notin> set (map tr_to (filter (\<lambda>t. tr_from t = pid) (transitions w)))) (nextPhases p))"
  using assms by (simp add: getAvailableTransitions_def getPhase_def foldl_push Let_def)

lemma tr_to_implicit_comp: "map (tr_to \<circ> implicit_transition pid) ns = ns"
  by (induction ns) (simp_all add: implicit_transition_def)

lemma count_list_distinct: "distinct xs \<Longrightarrow> x \<in> set xs \<Longrightarrow> count_list xs x = 1"
  by (induction xs) (auto simp: count_list_0_iff)

text \<open>
  Claim C1, as the code has it. Let the lookup of a workflow id find \<open>w\<close> and the
  lookup of a phase id in \<open>w\<close> find \<open>p\<close>. For every explicit transition \<open>t\<close> of
  \<open>w\<close> that leaves \<open>p\<close>, the entries of \<open>getAvailableTransitions\<close> whose target
  is the target of \<open>t\<close> are exactly the explicit transitions leaving \<open>p\<close> with
  that target, in declared order: no implicit entry is appended for it. When
  moreover the explicit transitions leaving \<open>p\<close> have pairwise distinct targets
  and \<open>nextPhases\<close> of \<open>p\<close> names no id twice, the result holds at most one
  transition per target, and exactly one for the target of \<open>t\<close>.
\<close>

theorem explicit_suppresses_implicit:
  assumes "find (\<lambda>x. wf_id x = wid) (workflows cfg) = Some w"
    and "find (\<lambda>x. phase_id x = pid) (phases w) = Some p"
  shows "(\<forall>t \<in> set (transitions w). tr_from t = pid \<longrightarrow>
            filter (\<lambda>x. tr_to x = tr_to t) (getAvailableTransitions (Some cfg) wid pid)
            = filter (\<lambda>x. tr_to x = tr_to t) (filter (\<lambda>x. tr_from x = pid) (transitions w)))
       \<and> (distinct (map tr_to (filter (\<lambda>x. tr_from x = pid) (transitions w))) \<and> distinct (nextPhases p)
            \<longrightarrow> distinct (map tr_to (getAvailableTransitions (Some cfg) wid pid))
              \<and> (\<forall>t \<in> set (transitions w). tr_from t = pid \<longrightarrow>
                    count_list (map tr_to (getAvailableTransitions (Some cfg) wid pid)) (tr_to t) = 1))"
proof -
  let ?E = "filter (\<lambda>x. tr_from x = pid) (transitions w)"
  let ?I = "filter (\<lambda>n. n \<notin> set (map tr_to ?E)) (nextPhases p)"
  let ?R = "getAvailableTransitions (Some cfg) wid pid"
  have R: "?R = ?E @ map (implicit_transition pid) ?I"
    using assms by (rule getAvailableTransitions_found)
  have targets: "map tr_to ?R = map tr_to ?E @ ?I"
    by (simp add: R tr_to_implicit_comp)
  have part1: "filter (\<lambda>x. tr_to x = tr_to t) ?R = filter (\<lambda>x. tr_to x = tr_to t) ?E"
    if "t \<in> set (transitions w)" "tr_from t = pid" for t
  proof -
    have "tr_to t \<in> set (map tr_to ?E)" using that by auto
    then have "filter (\<lambda>x. tr_to x = tr_to t) (map (implicit_transition pid) ?I) = []"
      by (auto simp: filter_empty_conv implicit_transition_def)
    then show ?thesis by (simp add: R)
  qed
  have part2: "distinct (map tr_to ?R)" if "distinct (map tr_to ?E)" "distinct (nextPhases p)"
    unfolding targets using that by auto
  have part3: "count_list (map tr_to ?R) (tr_to t) = 1"
    if "distinct (map tr_to ?E)" "distinct (nextPhases p)" "t \<in> set (transitions w)" "tr_from t = pid" for t
  proof -
    have "tr_to t \<in> set (map tr_to ?R)" unfolding targets using that by auto
    with part2 that show ?thesis by (simp add: count_list_distinct)
  qed
  show ?thesis using part1 part2 part3 by blast
qed

text \<open>
  The theorem at the unit tests' workflow: from \<open>p1\<close> the explicit transition to
  \<open>p2\<close> is the only entry for \<open>p2\<close>, although \<open>p2\<close> is also a next phase.
\<close>

theorem explicit_suppresses_implicit_witness:
  "find (\<lambda>x. wf_id x = ''w'') (workflows test_config) = Some test_workflow
   \<and> find (\<lambda>x. phase_id x = ''p1'') (phases test_workflow) = Some (mk_phase ''p1'' [''x''] [''p2'', ''p3''])
   \<and> mk_transition ''p1'' ''p2'' [''c1''] \<in> set (transitions test_workflow)
   \<and> ''p2'' \<in> set (nextPhases (mk_phase ''p1'' [''x''] [''p2'', ''p3'']))
   \<and> distinct (map tr_to (getAvailableTransitions (Some test_config) ''w'' ''p1''))
   \<and> count_list (map tr_to (getAvailableTransitions (Some test_config) ''w'' ''p1'')) ''p2'' = 1"
proof -
  have w: "find (\<lambda>x. wf_id x = ''w'') (workflows test_config) = Some test_workflow"
    by (simp add: test_config_def test_workflow_def fixture_defs)
  have p: "find (\<lambda>x. phase_id x = ''p1'') (phases test_workflow) = Some (mk_phase ''p1'' [''x''] [''p2'', ''p3''])"
    by (simp add: test_workflow_def fixture_defs)
  have d: "distinct (map tr_to (filter (\<lambda>x. tr_from x = ''p1'') (transitions test_workflow)))
           \<and> distinct (nextPhases (mk_phase ''p1'' [''x''] [''p2'', ''p3'']))"
    by (simp add: test_workflow_def fixture_defs)
  have t: "mk_transition ''p1'' ''p2'' [''c1''] \<in> set (transitions test_workflow)"
    by (simp add: test_workflow_def fixture_defs)
  have ft: "tr_from (mk_transition ''p1'' ''p2'' [''c1'']) = ''p1''"
    "tr_to (mk_transition ''p1'' ''p2'' [''c1'']) = ''p2''"
    by (simp_all add: fixture_defs)
  have n: "''p2'' \<in> set (nextPhases (mk_phase ''p1'' [''x''] [''p2'', ''p3'']))"
    by (simp add: fixture_defs)
  from explicit_suppresses_implicit [OF w p] d t ft
  have "distinct (map tr_to (getAvailableTransitions (Some test_config) ''w'' ''p1''))
      \<and> count_list (map tr_to (getAvailableTransitions (Some test_config) ''w'' ''p1'')) ''p2'' = 1"
    by metis
  with w p t n show ?thesis by simp
qed

text \<open>
  Claim C1 as stated fails. The configuration below passes validation; phase
  \<open>a\<close> has two explicit transitions to \<open>b\<close>, which is also a next phase, and
  names \<open>c\<close> twice as a next phase. The result then holds two entries for \<open>b\<close>
  (both explicit) and two for \<open>c\<close> (both implicit).
\<close>

theorem repeated_targets_counterexample:
  "valid (validate sdlcConfigSchema_validate repeated_targets_config)
   \<and> getPhase (Some repeated_targets_config) ''w'' ''a'' = Some (mk_phase ''a'' [''x''] [''b'', ''c'', ''c''])
   \<and> map tr_to (getAvailableTransitions (Some repeated_targets_config) ''w'' ''a'') = [''b'', ''b'', ''c'', ''c'']"
  by (simp add: validate_def sdlcConfigSchema_validate_def sdlcConfigSchema_errors_def
      workflow_schema_errors_def threshold_errors_def matches_version_pattern_def is_digit_def
      schema_errors_def workflow_errors_def check_nextPhases_def check_task_dependencies_def
      check_transition_def getAvailableTransitions_def getPhase_def implicit_transition_def
      repeated_targets_config_def fixture_defs)

text \<open>
  Claim C8. Let the lookups by id find workflow \<open>w\<close> and, in it, phase \<open>p\<close>
  (as they do for every phase of every workflow when ids are unique). If \<open>p\<close>
  has no exit conditions and no next phases and no explicit transition of \<open>w\<close>
  leaves it, \<open>validatePhaseCompletion\<close> returns \<open>valid = true\<close>, no errors, and
  exactly two warnings of type best-practice: the first message contains "no
  exit conditions", the second "no available transitions".
\<close>

theorem dead_end_phase_two_warnings:
  assumes "find (\<lambda>x. wf_id x = wid) (workflows cfg) = Some w"
    and "find (\<lambda>x. phase_id x = pid) (phases w) = Some p"
    and "exitConditions p = []"
    and "nextPhases p = []"
    and "filter (\<lambda>t. tr_from t = pid) (transitions w) = []"
  shows "valid (validatePhaseCompletion (Some cfg) wid pid)
       \<and> errors (validatePhaseCompletion (Some cfg) wid pid) = []
       \<and> (\<exists>a b. warnings (validatePhaseCompletion (Some cfg) wid pid) = [a, b]
             \<and> warn_type a = BestPractice \<and> includes_str (warn_message a) ''no exit conditions''
             \<and> warn_type b = BestPractice \<and> includes_str (warn_message b) ''no available transitions'')"
proof -
  have ph: "getPhase (Some cfg) wid pid = Some p"
    using assms(1,2) by (simp add: getPhase_def)
  have tr: "getAvailableTransitions (Some cfg) wid pid = []"
    using getAvailableTransitions_found [OF assms(1,2)] assms(4,5) by simp
  have m1: "includes_str ''Phase has no exit conditions defined'' ''no exit conditions''"
    by simp
  have m2: "includes_str ''Phase has no available transitions or next phases'' ''no available transitions''"
    by simp
  show ?thesis
    using m1 m2 by (simp add: validatePhaseCompletion_def ph tr assms(3,4))
qed

text \<open>The theorem at phase \<open>p3\<close> of the unit tests' workflow.\<close>

theorem dead_end_phase_two_warnings_witness:
  "find (\<lambda>x. wf_id x = ''w'') (workflows test_config) = Some test_workflow
   \<and> find (\<lambda>x. phase_id x = ''p3'') (phases test_workflow) = Some (mk_phase ''p3'' [] [])
   \<and> valid (validatePhaseCompletion (Some test_config) ''w'' ''p3'')
   \<and> errors (validatePhaseCompletion (Some test_config) ''w'' ''p3'') = []
   \<and> length (warnings (validatePhaseCompletion (Some test_config) ''w'' ''p3'')) = 2"
proof -
  have w: "find (\<lambda>x. wf_id x = ''w'') (workflows test_config) = Some test_workflow"
    by (simp add: test_config_def test_workflow_def fixture_defs)
  have p: "find (\<lambda>x. phase_id x = ''p3'') (phases test_workflow) = Some (mk_phase ''p3'' [] [])"
    by (simp add: test_workflow_def fixture_defs)
  have e: "exitConditions (mk_phase ''p3'' [] []) = []" and n: "nextPhases (mk_phase ''p3'' [] []) = []"
    by (simp_all add: fixture_defs)
  have t: "filter (\<lambda>t. tr_from t = ''p3'') (transitions test_workflow) = []"
    by (simp add: test_workflow_def fixture_defs)
  from dead_end_phase_two_warnings [OF w p e n t]
  have "valid (validatePhaseCompletion (Some test_config) ''w'' ''p3'')
     \<and> errors (validatePhaseCompletion (Some test_config) ''w'' ''p3'') = []
     \<and> length (warnings (validatePhaseCompletion (Some test_config) ''w'' ''p3'')) = 2"
    by auto
  with w p show ?thesis by simp
qed

text \<open>
  Claim C10. There is a loaded configuration with a workflow \<open>w\<close>, a phase \<open>a\<close>
  of \<open>w\<close> and an id \<open>b\<close> that no phase of \<open>w\<close> has, such that
  \<open>canTransition\<close> from \<open>a\<close> to \<open>b\<close> is true and \<open>getAvailableTransitions\<close>
  returns a transition to \<open>b\<close>.
\<close>

theorem dangling_target_is_legal:
  "\<exists>cfg w a b. w \<in> set (workflows cfg)
     \<and> getPhase (Some cfg) (wf_id w) a \<noteq> None
     \<and> b \<notin> set (map phase_id (phases w))
     \<and> getPhase (Some cfg) (wf_id w) b = None
     \<and> canTransition (Some cfg) (wf_id w) a b
     \<and> b \<in> set (map tr_to (getAvailableTransitions (Some cfg) (wf_id w) a))"
proof -
  let ?w = "mk_workflow ''w'' ''a'' [mk_phase ''a'' [''x''] [''ghost'']] [mk_transition ''a'' ''nowhere'' []]"
  have "?w \<in> set (workflows dangling_config)
     \<and> getPhase (Some dangling_config) (wf_id ?w) ''a'' \<noteq> None
     \<and> ''ghost'' \<notin> set (map phase_id (phases ?w))
     \<and> getPhase (Some dangling_config) (wf_id ?w) ''ghost'' = None
     \<and> canTransition (Some dangling_config) (wf_id ?w) ''a'' ''ghost''
     \<and> ''ghost'' \<in> set (map tr_to (getAvailableTransitions (Some dangling_config) (wf_id ?w) ''a''))"
    by (simp add: canTransition_def getAvailableTransitions_def getPhase_def implicit_transition_def
        dangling_config_def fixture_defs)
  then show ?thesis by blast
qed

text \<open>
  The same holds for the dangling target of the explicit transition of that
  configuration.
\<close>

lemma dangling_explicit_target_is_legal:
  "''nowhere'' \<notin> set (map phase_id (concat (map phases (workflows dangling_config))))
   \<and> canTransition (Some dangling_config) ''w'' ''a'' ''nowhere''"
  by (simp add: canTransition_def getAvailableTransitions_def getPhase_def implicit_transition_def
      dangling_config_def fixture_defs)

end
